theory Spec2Isabelle
  imports Complex_Main "HOL-Library.Sublist"
begin

section \<open>Python values used by \<^verbatim>\<open>web_scraping.py\<close>\<close>

text \<open>
  A Python \<^verbatim>\<open>str\<close> is modelled as a \<^typ>\<open>string\<close> whose characters stand for the code
  points 0 to 255 (so the pound sign is the single character \<^verbatim>\<open>0xA3\<close>). In that range the
  decimal digits of the regular expression class \<^verbatim>\<open>\d\<close> and of \<^verbatim>\<open>int()\<close> are exactly
  \<^verbatim>\<open>0\<close> to \<^verbatim>\<open>9\<close>. An exception that leaves a function is a value \<open>Inl e\<close>.
\<close>

datatype error = AttributeError | KeyError | ValueError

definition is_digit :: "char \<Rightarrow> bool" where
  "is_digit c = (c \<in> set ''0123456789'')"

text \<open>\<^verbatim>\<open>str.isspace\<close> on the code points 0 to 255.\<close>

definition is_space :: "char \<Rightarrow> bool" where
  "is_space c = (c \<in> set [CHR 0x09, CHR 0x0A, CHR 0x0B, CHR 0x0C, CHR 0x0D,
                           CHR 0x1C, CHR 0x1D, CHR 0x1E, CHR 0x1F, CHR 0x20,
                           CHR 0x85, CHR 0xA0])"

text \<open>\<^verbatim>\<open>s.strip()\<close>: white space removed at both ends.\<close>

definition strip :: "string \<Rightarrow> string" where
  "strip s = rev (dropWhile is_space (rev (dropWhile is_space s)))"

definition digit_val :: "char \<Rightarrow> nat" where
  "digit_val c = length (takeWhile (\<lambda>d. d \<noteq> c) ''0123456789'')"

text \<open>The number a run of decimal digits denotes.\<close>

definition digits_val :: "string \<Rightarrow> nat" where
  "digits_val ds = foldl (\<lambda>a c. 10 * a + digit_val c) 0 ds"

text \<open>
  \<^verbatim>\<open>int(s)\<close> for a string, base 10: surrounding white space is dropped, one sign is
  allowed, and single underscores may separate digits; anything else raises
  \<^verbatim>\<open>ValueError\<close>. Two things are left out: the bound that Python 3.11 and later put
  on the number of digits of the text (4300 unless configured), and that \<^verbatim>\<open>int\<close> keeps
  the separators \<^verbatim>\<open>0x1C\<close> to \<^verbatim>\<open>0x1F\<close> at the ends of an ASCII text, where it then
  raises. The texts the program converts come from \<^verbatim>\<open>get_text(strip=True)\<close> or from a
  run of digits and have no such character at their ends.
\<close>

fun grouped_digits :: "string \<Rightarrow> bool" where
  "grouped_digits [] = False"
| "grouped_digits [c] = is_digit c"
| "grouped_digits (c # d # cs) =
     (is_digit c \<and> (if d = CHR ''_'' then grouped_digits cs else grouped_digits (d # cs)))"

definition int_body :: "string \<Rightarrow> error + int" where
  "int_body b = (if grouped_digits b
                 then Inr (int (digits_val (filter (\<lambda>c. c \<noteq> CHR ''_'') b)))
                 else Inl ValueError)"

definition py_int :: "string \<Rightarrow> error + int" where
  "py_int s = (case strip s of
                 [] \<Rightarrow> Inl ValueError
               | c # cs \<Rightarrow>
                   if c = CHR ''-'' then map_sum id uminus (int_body cs)
                   else if c = CHR ''+'' then int_body cs
                   else int_body (c # cs))"

text \<open>
  \<^verbatim>\<open>float(s)\<close> on the strings the call site can pass, runs of digits and dots: the run
  denotes a number when it has at most one dot and at least one digit, and raises
  \<^verbatim>\<open>ValueError\<close> otherwise. The result is the exact decimal value: the rounding to a
  binary double, with its overflow to infinity for very long runs and its underflow to
  0.0, is not modelled. No run of digits and dots gives a NaN.
\<close>

definition py_float :: "string \<Rightarrow> error + rat" where
  "py_float s =
     (let ip = takeWhile (\<lambda>c. c \<noteq> CHR ''.'') s;
          fp = drop 1 (dropWhile (\<lambda>c. c \<noteq> CHR ''.'') s)
      in if list_all is_digit ip \<and> list_all is_digit fp \<and> ip @ fp \<noteq> []
         then Inr (of_nat (digits_val ip) + of_nat (digits_val fp) / 10 ^ length fp)
         else Inl ValueError)"

text \<open>\<^verbatim>\<open>str(n)\<close> for an integer, as the f-string of the listing address formats it.\<close>

fun str_nat :: "nat \<Rightarrow> string" where
  "str_nat n = (if n < 10 then [''0123456789'' ! n]
                else str_nat (n div 10) @ [''0123456789'' ! (n mod 10)])"

definition str_int :: "int \<Rightarrow> string" where
  "str_int i = (if i < 0 then CHR ''-'' # str_nat (nat (- i)) else str_nat (nat i))"

text \<open>
  \<^verbatim>\<open>s.replace(old, new)\<close>: the occurrences of \<open>old\<close> are found from left to right
  without overlap and each is replaced; an empty \<open>old\<close> matches before every character and
  at the end.
\<close>

function replace :: "string \<Rightarrow> string \<Rightarrow> string \<Rightarrow> string" where
  "replace s old new =
     (if old = [] then new @ concat (map (\<lambda>c. c # new) s)
      else if s = [] then []
      else if prefix old s then new @ replace (drop (length old) s) old new
      else hd s # replace (tl s) old new)"
  by pat_completeness auto
termination
  by (relation "measure (\<lambda>(s, old, new). length s)") (auto simp: neq_Nil_conv)

declare replace.simps [simp del]

text \<open>\<^verbatim>\<open>sub in s\<close> for strings.\<close>

fun contains :: "string \<Rightarrow> string \<Rightarrow> bool" where
  "contains sub [] = (sub = [])"
| "contains sub (c # cs) = (prefix sub (c # cs) \<or> contains sub cs)"

section \<open>Settings\<close>

definition BASE_URL :: string where
  "BASE_URL = ''https://books.toscrape.com/''"

definition CATALOGUE_URL :: string where
  "CATALOGUE_URL = BASE_URL @ ''catalogue/''"

definition NUM_CATALOGUE_PAGES :: int where
  "NUM_CATALOGUE_PAGES = 10"

definition RATING_MAP :: "string \<rightharpoonup> int" where
  "RATING_MAP = [''One'' \<mapsto> 1, ''Two'' \<mapsto> 2, ''Three'' \<mapsto> 3, ''Four'' \<mapsto> 4, ''Five'' \<mapsto> 5]"

section \<open>The document tree and its queries\<close>

text \<open>
  The parsed page that \<^verbatim>\<open>BeautifulSoup(response.text, "html.parser")\<close> returns: an
  element has a name, the tokens of its \<^verbatim>\<open>class\<close> attribute (none when it has no such
  attribute), its other attributes and its contents; the rest is text. A document is the
  list of its top-level nodes. A found element is never \<^verbatim>\<open>None\<close> and is true in a
  condition, so \<^verbatim>\<open>if tag:\<close> asks whether the search found one.
\<close>

datatype node =
    Tag string "string list" "string \<rightharpoonup> string" "node list"
  | NavigableString string

type_synonym soup = "node list"

fun contents :: "node \<Rightarrow> node list" where
  "contents (Tag nm cls ats cs) = cs"
| "contents (NavigableString s) = []"

fun tag_classes :: "node \<Rightarrow> string list" where
  "tag_classes (Tag nm cls ats cs) = cls"
| "tag_classes (NavigableString s) = []"

fun tag_attrs :: "node \<Rightarrow> string \<rightharpoonup> string" where
  "tag_attrs (Tag nm cls ats cs) = ats"
| "tag_attrs (NavigableString s) = Map.empty"

text \<open>
  All nodes below a list of nodes in document order, each with the siblings that
  follow it.
\<close>

fun descendants :: "node list \<Rightarrow> (node \<times> node list) list" where
  "descendants [] = []"
| "descendants (Tag nm cls ats cs # ns) =
     (Tag nm cls ats cs, ns) # descendants cs @ descendants ns"
| "descendants (NavigableString s # ns) = (NavigableString s, ns) # descendants ns"

text \<open>The search criteria the program uses: a tag name, with a class token or an id.\<close>

fun named :: "string \<Rightarrow> node \<Rightarrow> bool" where
  "named n (Tag nm cls ats cs) = (nm = n)"
| "named n (NavigableString s) = False"

definition named_class :: "string \<Rightarrow> string \<Rightarrow> node \<Rightarrow> bool" where
  "named_class n c x = (named n x \<and> c \<in> set (tag_classes x))"

definition named_id :: "string \<Rightarrow> string \<Rightarrow> node \<Rightarrow> bool" where
  "named_id n i x = (named n x \<and> tag_attrs x ''id'' = Some i)"

text \<open>\<^verbatim>\<open>tag.find_all(...)\<close> and \<^verbatim>\<open>tag.find(...)\<close>, applied to the contents of \<open>tag\<close>.\<close>

definition find_all :: "(node \<Rightarrow> bool) \<Rightarrow> node list \<Rightarrow> node list" where
  "find_all P ns = filter P (map fst (descendants ns))"

definition find_with_siblings :: "(node \<Rightarrow> bool) \<Rightarrow> node list \<Rightarrow> (node \<times> node list) option" where
  "find_with_siblings P ns =
     (case filter (\<lambda>(x, sibs). P x) (descendants ns) of [] \<Rightarrow> None | r # _ \<Rightarrow> Some r)"

definition find_first :: "(node \<Rightarrow> bool) \<Rightarrow> node list \<Rightarrow> node option" where
  "find_first P ns = map_option fst (find_with_siblings P ns)"

text \<open>\<^verbatim>\<open>tag.find_next_sibling(name)\<close>, from the siblings that follow \<open>tag\<close>.\<close>

definition find_next_sibling :: "string \<Rightarrow> node list \<Rightarrow> node option" where
  "find_next_sibling n sibs = (case filter (named n) sibs of [] \<Rightarrow> None | x # _ \<Rightarrow> Some x)"

text \<open>
  \<^verbatim>\<open>tag.get_text(strip=True)\<close>: the text nodes below the tag in document order, each
  stripped, the empty ones left out, joined. The tree has one kind of text node: comments
  and the text inside \<^verbatim>\<open>script\<close> and \<^verbatim>\<open>style\<close> elements, which recent versions of
  the library leave out of \<^verbatim>\<open>get_text\<close>, are not told apart from ordinary text.
\<close>

fun strings :: "node list \<Rightarrow> string list" where
  "strings [] = []"
| "strings (Tag nm cls ats cs # ns) = strings cs @ strings ns"
| "strings (NavigableString s # ns) = s # strings ns"

definition get_text :: "node \<Rightarrow> string" where
  "get_text x = concat (filter (\<lambda>s. s \<noteq> []) (map strip (strings (contents x))))"

section \<open>Fetching a page\<close>

text \<open>
  What \<^verbatim>\<open>requests.get\<close> does on one call is given from outside: it returns a response,
  with its \<^verbatim>\<open>ok\<close> flag and the tree its text parses to, or raises
  \<^verbatim>\<open>RequestException\<close>. \<^verbatim>\<open>get_page\<close> turns both failures into \<^verbatim>\<open>None\<close>.
\<close>

datatype fetch_result = Response bool soup | RequestException

fun get_page :: "fetch_result \<Rightarrow> soup option" where
  "get_page (Response ok body) = (if ok then Some body else None)"
| "get_page RequestException = None"

section \<open>Step 1: collecting the addresses of the book pages\<close>

text \<open>The address of a catalogue page, with the two branches of the source.\<close>

definition listing_url :: "int \<Rightarrow> string" where
  "listing_url page_num =
     (if page_num = 1 then CATALOGUE_URL @ ''page-1.html''
      else CATALOGUE_URL @ ''page-'' @ str_int page_num @ ''.html'')"

text \<open>\<^verbatim>\<open>full_url = CATALOGUE_URL + href.replace("../", "")\<close>\<close>

definition full_url :: "string \<Rightarrow> string" where
  "full_url href = CATALOGUE_URL @ replace href ''../'' []"

text \<open>
  The loop over the articles of one page. \<^verbatim>\<open>article.find("h3").find("a")\<close> calls
  \<^verbatim>\<open>find\<close> on \<^verbatim>\<open>None\<close> when the article has no \<^verbatim>\<open>h3\<close>, and
  \<^verbatim>\<open>link_tag["href"]\<close> raises \<^verbatim>\<open>KeyError\<close> when the anchor has no such attribute.
\<close>

fun articles_loop :: "node list \<Rightarrow> string list \<Rightarrow> error + string list" where
  "articles_loop [] book_urls = Inr book_urls"
| "articles_loop (article # articles) book_urls =
     (case find_first (named ''h3'') (contents article) of
        None \<Rightarrow> Inl AttributeError
      | Some h3 \<Rightarrow>
          (case find_first (named ''a'') (contents h3) of
             None \<Rightarrow> articles_loop articles book_urls
           | Some link_tag \<Rightarrow>
               (case tag_attrs link_tag ''href'' of
                  None \<Rightarrow> Inl KeyError
                | Some href \<Rightarrow> articles_loop articles (book_urls @ [full_url href]))))"

text \<open>
  The loop over the page numbers; \<open>net\<close> says what the fetch of each address does. A page
  that cannot be fetched is passed over.
\<close>

fun pages_loop :: "(string \<Rightarrow> fetch_result) \<Rightarrow> int list \<Rightarrow> string list \<Rightarrow> error + string list" where
  "pages_loop net [] book_urls = Inr book_urls"
| "pages_loop net (page_num # rest) book_urls =
     (case get_page (net (listing_url page_num)) of
        None \<Rightarrow> pages_loop net rest book_urls
      | Some soup \<Rightarrow>
          (case articles_loop (find_all (named_class ''article'' ''product_pod'') soup) book_urls of
             Inl e \<Rightarrow> Inl e
           | Inr book_urls' \<Rightarrow> pages_loop net rest book_urls'))"

definition collect_book_urls :: "(string \<Rightarrow> fetch_result) \<Rightarrow> int \<Rightarrow> error + string list" where
  "collect_book_urls net num_pages = pages_loop net [1..num_pages] []"

section \<open>Step 2: parsing the page of one book\<close>

record book =
  title :: string
  category :: string
  rating :: int
  upc :: string
  product_type :: string
  price_excl_tax :: rat
  price_incl_tax :: rat
  tax :: rat
  price :: rat
  availability :: string
  num_available :: int
  num_reviews :: int
  description :: string
  book_url :: string

text \<open>The title: \<^verbatim>\<open>title_tag.find("h1").get_text(strip=True) if title_tag else ""\<close>.\<close>

definition extract_title :: "soup \<Rightarrow> error + string" where
  "extract_title soup =
     (case find_first (named_class ''div'' ''product_main'') soup of
        None \<Rightarrow> Inr []
      | Some title_tag \<Rightarrow>
          (case find_first (named ''h1'') (contents title_tag) of
             None \<Rightarrow> Inl AttributeError
           | Some h1 \<Rightarrow> Inr (get_text h1)))"

definition extract_category :: "soup \<Rightarrow> string" where
  "extract_category soup =
     (case find_first (named_class ''ul'' ''breadcrumb'') soup of
        None \<Rightarrow> []
      | Some breadcrumb \<Rightarrow>
          (let crumbs = find_all (named ''li'') (contents breadcrumb)
           in if length crumbs > 2 then get_text (crumbs ! 2) else []))"

definition extract_rating :: "soup \<Rightarrow> int" where
  "extract_rating soup =
     (case find_first (named_class ''p'' ''star-rating'') soup of
        None \<Rightarrow> 0
      | Some star_tag \<Rightarrow>
          (case filter (\<lambda>c. c \<noteq> ''star-rating'') (tag_classes star_tag) of
             [] \<Rightarrow> 0
           | c # rating_class \<Rightarrow> (case RATING_MAP c of None \<Rightarrow> 0 | Some r \<Rightarrow> r)))"

text \<open>
  The rows of the product table fill the dictionary \<open>info\<close>; a row without a
  \<^verbatim>\<open>th\<close> or without a \<^verbatim>\<open>td\<close> calls \<^verbatim>\<open>get_text\<close> on \<^verbatim>\<open>None\<close>.
\<close>

fun rows_loop :: "node list \<Rightarrow> (string \<rightharpoonup> string) \<Rightarrow> error + (string \<rightharpoonup> string)" where
  "rows_loop [] info = Inr info"
| "rows_loop (row # rows) info =
     (case find_first (named ''th'') (contents row) of
        None \<Rightarrow> Inl AttributeError
      | Some th \<Rightarrow>
          (case find_first (named ''td'') (contents row) of
             None \<Rightarrow> Inl AttributeError
           | Some td \<Rightarrow> rows_loop rows (info(get_text th \<mapsto> get_text td))))"

definition extract_info :: "soup \<Rightarrow> error + (string \<rightharpoonup> string)" where
  "extract_info soup =
     (case find_first (named_class ''table'' ''table-striped'') soup of
        None \<Rightarrow> Inr Map.empty
      | Some table \<Rightarrow> rows_loop (find_all (named ''tr'') (contents table)) Map.empty)"

text \<open>\<^verbatim>\<open>info.get(key, default)\<close>\<close>

definition info_get :: "(string \<rightharpoonup> string) \<Rightarrow> string \<Rightarrow> string \<Rightarrow> string" where
  "info_get info k d = (case info k of None \<Rightarrow> d | Some v \<Rightarrow> v)"

text \<open>
  \<^verbatim>\<open>re.search(r"[\d.]+", raw)\<close>: the leftmost character that is a digit or a dot starts
  the match, which runs as far as such characters go.
\<close>

definition digit_or_dot :: "char \<Rightarrow> bool" where
  "digit_or_dot c = (is_digit c \<or> c = CHR ''.'')"

definition price_search :: "string \<Rightarrow> string option" where
  "price_search raw =
     (case dropWhile (\<lambda>c. \<not> digit_or_dot c) raw of
        [] \<Rightarrow> None
      | c # cs \<Rightarrow> Some (takeWhile digit_or_dot (c # cs)))"

definition parse_price :: "string \<Rightarrow> error + rat" where
  "parse_price raw = (case price_search raw of None \<Rightarrow> Inr 0 | Some m \<Rightarrow> py_float m)"

text \<open>\<^verbatim>\<open>"In stock" if "In stock" in avail_raw else "Out of stock"\<close>\<close>

definition availability_of :: "string \<Rightarrow> string" where
  "availability_of avail_raw =
     (if contains ''In stock'' avail_raw then ''In stock'' else ''Out of stock'')"

text \<open>
  \<^verbatim>\<open>re.search(r"\((\d+) available\)", avail_raw)\<close>, giving group 1: at the leftmost
  opening bracket that is followed by a run of digits and the text
  \<^verbatim>\<open> available)\<close>. The run is taken whole, since a shorter one is followed by a digit.
\<close>

fun avail_search :: "string \<Rightarrow> string option" where
  "avail_search [] = None"
| "avail_search (c # cs) =
     (if c = CHR ''('' \<and> takeWhile is_digit cs \<noteq> []
         \<and> prefix '' available)'' (dropWhile is_digit cs)
      then Some (takeWhile is_digit cs)
      else avail_search cs)"

definition num_available_of :: "string \<Rightarrow> error + int" where
  "num_available_of avail_raw =
     (case avail_search avail_raw of None \<Rightarrow> Inr 0 | Some ds \<Rightarrow> py_int ds)"

text \<open>\<^verbatim>\<open>int(info.get("Number of reviews", 0))\<close>: the default is the integer 0.\<close>

definition num_reviews_of :: "(string \<rightharpoonup> string) \<Rightarrow> error + int" where
  "num_reviews_of info =
     (case info ''Number of reviews'' of None \<Rightarrow> Inr 0 | Some v \<Rightarrow> py_int v)"

definition extract_description :: "soup \<Rightarrow> string" where
  "extract_description soup =
     (case find_first (named_class ''article'' ''product_page'') soup of
        None \<Rightarrow> []
      | Some desc_tag \<Rightarrow>
          (case find_with_siblings (named_id ''div'' ''product_description'') (contents desc_tag) of
             None \<Rightarrow> []
           | Some (p_tag, sibs) \<Rightarrow>
               (case find_next_sibling ''p'' sibs of
                  None \<Rightarrow> []
                | Some next_p \<Rightarrow> get_text next_p)))"

text \<open>The body of \<^verbatim>\<open>parse_book_page\<close> once the page is there, in the order of the source.\<close>

definition parse_soup :: "soup \<Rightarrow> string \<Rightarrow> error + book" where
  "parse_soup soup url =
     (case extract_title soup of Inl e \<Rightarrow> Inl e | Inr t \<Rightarrow>
     (case extract_info soup of Inl e \<Rightarrow> Inl e | Inr info \<Rightarrow>
     (case parse_price (info_get info ''Price (excl. tax)'' ''0'') of Inl e \<Rightarrow> Inl e | Inr p_excl \<Rightarrow>
     (case parse_price (info_get info ''Price (incl. tax)'' ''0'') of Inl e \<Rightarrow> Inl e | Inr p_incl \<Rightarrow>
     (case parse_price (info_get info ''Tax'' ''0'') of Inl e \<Rightarrow> Inl e | Inr p_tax \<Rightarrow>
     (case num_available_of (info_get info ''Availability'' []) of Inl e \<Rightarrow> Inl e | Inr n_avail \<Rightarrow>
     (case num_reviews_of info of Inl e \<Rightarrow> Inl e | Inr n_rev \<Rightarrow>
        Inr \<lparr> title = t,
              category = extract_category soup,
              rating = extract_rating soup,
              upc = info_get info ''UPC'' [],
              product_type = info_get info ''Product Type'' [],
              price_excl_tax = p_excl,
              price_incl_tax = p_incl,
              tax = p_tax,
              price = p_incl,
              availability = availability_of (info_get info ''Availability'' []),
              num_available = n_avail,
              num_reviews = n_rev,
              description = extract_description soup,
              book_url = url \<rparr>)))))))"

definition parse_book_page :: "fetch_result \<Rightarrow> string \<Rightarrow> error + book option" where
  "parse_book_page r url =
     (case get_page r of
        None \<Rightarrow> Inr None
      | Some soup \<Rightarrow> map_sum id Some (parse_soup soup url))"

section \<open>Step 3: the loop of \<^verbatim>\<open>main\<close> over the collected addresses\<close>

text \<open>
  Each address comes with what its fetch does. A returned dictionary has its fourteen
  keys and is true in \<^verbatim>\<open>if book:\<close>, so a record is appended exactly when the result is
  not \<^verbatim>\<open>None\<close>.
\<close>

fun books_loop :: "(string \<times> fetch_result) list \<Rightarrow> book list \<Rightarrow> error + book list" where
  "books_loop [] books_data = Inr books_data"
| "books_loop ((url, r) # rest) books_data =
     (case parse_book_page r url of
        Inl e \<Rightarrow> Inl e
      | Inr None \<Rightarrow> books_loop rest books_data
      | Inr (Some book) \<Rightarrow> books_loop rest (books_data @ [book]))"

section \<open>Fixtures\<close>

text \<open>A small book page with every anchor the parser looks for, and the record it gives.\<close>

definition sample_page :: soup where
  "sample_page =
     [Tag ''html'' [] Map.empty
       [Tag ''ul'' [''breadcrumb''] Map.empty
          [Tag ''li'' [] Map.empty [NavigableString ''Home''],
           Tag ''li'' [] Map.empty [NavigableString ''Books''],
           Tag ''li'' [] Map.empty [NavigableString '' Poetry ''],
           Tag ''li'' [''active''] Map.empty [NavigableString ''A Light'']],
        Tag ''article'' [''product_page''] Map.empty
          [Tag ''div'' [''col-sm-6'', ''product_main''] Map.empty
             [Tag ''h1'' [] Map.empty [NavigableString ''A Light''],
              Tag ''p'' [''star-rating'', ''Four''] Map.empty []],
           Tag ''div'' [''sub-header''] [''id'' \<mapsto> ''product_description''] [],
           Tag ''p'' [] Map.empty [NavigableString ''Poems.''],
           Tag ''table'' [''table'', ''table-striped''] Map.empty
             [Tag ''tr'' [] Map.empty
                [Tag ''th'' [] Map.empty [NavigableString ''UPC''],
                 Tag ''td'' [] Map.empty [NavigableString ''a897fe'']],
              Tag ''tr'' [] Map.empty
                [Tag ''th'' [] Map.empty [NavigableString ''Price (incl. tax)''],
                 Tag ''td'' [] Map.empty
                   [NavigableString [CHR 0xA3, CHR ''5'', CHR ''1'', CHR ''.'', CHR ''7'', CHR ''7'']]],
              Tag ''tr'' [] Map.empty
                [Tag ''th'' [] Map.empty [NavigableString ''Availability''],
                 Tag ''td'' [] Map.empty [NavigableString '' In stock (22 available) '']],
              Tag ''tr'' [] Map.empty
                [Tag ''th'' [] Map.empty [NavigableString ''Number of reviews''],
                 Tag ''td'' [] Map.empty [NavigableString ''0'']]]]]]"

definition sample_book :: "string \<Rightarrow> book" where
  "sample_book url =
     \<lparr> title = ''A Light'', category = ''Poetry'', rating = 4, upc = ''a897fe'',
       product_type = [], price_excl_tax = 0, price_incl_tax = 5177 / 100, tax = 0,
       price = 5177 / 100, availability = ''In stock'', num_available = 22,
       num_reviews = 0, description = ''Poems.'', book_url = url \<rparr>"

text \<open>The record of a page with none of the anchors: every field has its default.\<close>

definition default_book :: "string \<Rightarrow> book" where
  "default_book url =
     \<lparr> title = [], category = [], rating = 0, upc = [], product_type = [],
       price_excl_tax = 0, price_incl_tax = 0, tax = 0, price = 0,
       availability = ''Out of stock'', num_available = 0, num_reviews = 0,
       description = [], book_url = url \<rparr>"

text \<open>A page whose product block has no heading inside.\<close>

definition headless_page :: soup where
  "headless_page = [Tag ''div'' [''product_main''] Map.empty []]"

text \<open>A page whose table gives a review count with a minus sign.\<close>

definition negative_reviews_page :: soup where
  "negative_reviews_page =
     [Tag ''table'' [''table-striped''] Map.empty
        [Tag ''tr'' [] Map.empty
           [Tag ''th'' [] Map.empty [NavigableString ''Number of reviews''],
            Tag ''td'' [] Map.empty [NavigableString ''-3'']]]]"

text \<open>
  A page whose rating marker carries the token \<^verbatim>\<open>Four\<close> after another token:
  \<^verbatim>\<open><p class="star-rating big Four">\<close>.
\<close>

definition extra_token_page :: soup where
  "extra_token_page = [Tag ''p'' [''star-rating'', ''big'', ''Four''] Map.empty []]"

text \<open>
  A catalogue page with two articles: the first has no \<^verbatim>\<open>h3\<close>, the second has the
  heading and the link.
\<close>

definition listing_without_heading :: soup where
  "listing_without_heading =
     [Tag ''article'' [''product_pod''] Map.empty [],
      Tag ''article'' [''product_pod''] Map.empty
        [Tag ''h3'' [] Map.empty
           [Tag ''a'' [] [''href'' \<mapsto> ''a-light_1000/index.html''] []]]]"

text \<open>The same with a heading that has no anchor in the first article.\<close>

definition listing_without_anchor :: soup where
  "listing_without_anchor =
     [Tag ''article'' [''product_pod''] Map.empty [Tag ''h3'' [] Map.empty []],
      Tag ''article'' [''product_pod''] Map.empty
        [Tag ''h3'' [] Map.empty
           [Tag ''a'' [] [''href'' \<mapsto> ''a-light_1000/index.html''] []]]]"

text \<open>
  The spec's reading of the link resolution: only the \<^verbatim>\<open>../\<close> segments at the front
  of the link are dropped.
\<close>

function strip_leading_updirs :: "string \<Rightarrow> string" where
  "strip_leading_updirs s =
     (if prefix ''../'' s then strip_leading_updirs (drop 3 s) else s)"
  by pat_completeness auto
termination
  by (relation "measure length") (auto simp: prefix_def)

declare strip_leading_updirs.simps [simp del]

text \<open>
  The spec's reading of the count pattern: \<open>raw\<close> has the text
  \<^verbatim>\<open>(<digits> available)\<close> after the prefix \<open>p\<close>.
\<close>

definition count_pattern_at :: "string \<Rightarrow> string \<Rightarrow> string \<Rightarrow> string \<Rightarrow> bool" where
  "count_pattern_at raw p ds s =
     (raw = p @ ''('' @ ds @ '' available)'' @ s \<and> ds \<noteq> [] \<and> list_all is_digit ds)"

text \<open>
  The raw text the product table of a page gives for an attribute name, if the table
  can be read and has such a row.
\<close>

definition info_value :: "soup \<Rightarrow> string \<Rightarrow> string option" where
  "info_value soup k = (case extract_info soup of Inl e \<Rightarrow> None | Inr info \<Rightarrow> info k)"

section \<open>Evaluating the fixtures\<close>

lemma parse_sample_page:
  "parse_book_page (Response True sample_page) url = Inr (Some (sample_book url))"
proof -
  have "parse_soup sample_page url = Inr (sample_book url)"
    by code_simp
  then show ?thesis
    by (simp add: parse_book_page_def)
qed

lemma parse_empty_page:
  "parse_book_page (Response True []) url = Inr (Some (default_book url))"
proof -
  have "parse_soup [] url = Inr (default_book url)"
    by code_simp
  then show ?thesis
    by (simp add: parse_book_page_def)
qed

section \<open>What a constructed record comes from\<close>

lemma parse_book_page_Some:
  "parse_book_page r url = Inr (Some b) \<longleftrightarrow>
     (\<exists>soup. r = Response True soup \<and> parse_soup soup url = Inr b)"
proof (cases r)
  case (Response ok body)
  then show ?thesis
    by (cases "parse_soup body url") (auto simp: parse_book_page_def)
next
  case RequestException
  then show ?thesis
    by (simp add: parse_book_page_def)
qed

lemma parse_book_page_absent:
  "get_page r = None \<Longrightarrow> parse_book_page r url = Inr None"
  by (simp add: parse_book_page_def)

lemma parse_soup_fields:
  assumes "parse_soup soup url = Inr b"
  obtains info where
    "extract_info soup = Inr info"
    "parse_price (info_get info ''Price (incl. tax)'' ''0'') = Inr (price_incl_tax b)"
    "price b = price_incl_tax b"
    "rating b = extract_rating soup"
    "availability b = availability_of (info_get info ''Availability'' [])"
    "num_available_of (info_get info ''Availability'' []) = Inr (num_available b)"
    "num_reviews_of info = Inr (num_reviews b)"
  using assms unfolding parse_soup_def
  by (auto split: sum.splits)

section \<open>The price is the price with tax\<close>

text \<open>
  C2. Every record that \<^verbatim>\<open>parse_book_page\<close> constructs has a \<open>price\<close> field equal to
  its \<open>price_incl_tax\<close> field.
\<close>

theorem price_is_price_incl_tax:
  assumes "parse_book_page r url = Inr (Some b)"
  shows "price b = price_incl_tax b"
proof -
  from assms obtain soup where "parse_soup soup url = Inr b"
    by (auto simp: parse_book_page_Some)
  then show ?thesis
    by (rule parse_soup_fields)
qed

theorem price_is_price_incl_tax_witness:
  "parse_book_page (Response True sample_page) ''u'' = Inr (Some (sample_book ''u''))
   \<and> price (sample_book ''u'') = price_incl_tax (sample_book ''u'')"
proof -
  have h: "parse_book_page (Response True sample_page) ''u'' = Inr (Some (sample_book ''u''))"
    by (rule parse_sample_page)
  show ?thesis
    using h price_is_price_incl_tax [OF h] by simp
qed

section \<open>The address of a catalogue page\<close>

text \<open>
  C10. The branch for page number 1 builds the address the general branch would build:
  for every page number the address fetched is the catalogue root followed by
  \<^verbatim>\<open>page-N.html\<close>, and so are the addresses of a whole run over 1 to \<open>num_pages\<close>.
\<close>

theorem listing_url_branches_agree:
  "listing_url page_num = CATALOGUE_URL @ ''page-'' @ str_int page_num @ ''.html''
   \<and> map listing_url [1..num_pages] =
       map (\<lambda>n. CATALOGUE_URL @ ''page-'' @ str_int n @ ''.html'') [1..num_pages]"
proof -
  have one: "str_int 1 = ''1''"
    by (simp add: str_int_def)
  have "listing_url n = CATALOGUE_URL @ ''page-'' @ str_int n @ ''.html''" for n
    by (simp add: listing_url_def one)
  then show ?thesis
    by simp
qed

section \<open>Facts about the helper functions\<close>

lemma is_digit_not_space: "is_digit c \<Longrightarrow> \<not> is_space c"
  by (auto simp: is_digit_def is_space_def)

lemma is_digit_not_sign:
  "is_digit c \<Longrightarrow> c \<noteq> CHR ''-'' \<and> c \<noteq> CHR ''+'' \<and> c \<noteq> CHR ''_'' \<and> c \<noteq> CHR ''.'' \<and> c \<noteq> CHR '' ''"
  by (auto simp: is_digit_def)

lemma strip_digits:
  assumes "ds \<noteq> []" and "list_all is_digit ds"
  shows "strip ds = ds"
proof -
  have "\<not> is_space (hd ds)"
    using assms by (cases ds) (auto simp: is_digit_not_space)
  then have front: "dropWhile is_space ds = ds"
    using assms(1) by (cases ds) auto
  have "last ds \<in> set ds"
    using assms(1) by simp
  then have "\<not> is_space (hd (rev ds))"
    using assms by (simp add: hd_rev list_all_iff is_digit_not_space)
  then have "dropWhile is_space (rev ds) = rev ds"
    using assms(1) by (cases "rev ds") auto
  with front show ?thesis
    by (simp add: strip_def)
qed

lemma grouped_digits_run:
  "ds \<noteq> [] \<Longrightarrow> list_all is_digit ds \<Longrightarrow> grouped_digits ds"
  by (induction ds rule: grouped_digits.induct) (auto simp: is_digit_not_sign)

lemma filter_underscore_run:
  "list_all is_digit ds \<Longrightarrow> filter (\<lambda>c. c \<noteq> CHR ''_'') ds = ds"
  by (induction ds) (auto simp: is_digit_not_sign)

lemma py_int_digits:
  assumes "ds \<noteq> []" and "list_all is_digit ds"
  shows "py_int ds = Inr (int (digits_val ds))"
proof -
  from assms obtain c cs where ds: "ds = c # cs" and c: "is_digit c"
    by (cases ds) auto
  have "int_body ds = Inr (int (digits_val ds))"
    using assms by (simp add: int_body_def grouped_digits_run filter_underscore_run)
  then show ?thesis
    using strip_digits [OF assms] ds is_digit_not_sign [OF c]
    by (simp add: py_int_def)
qed

lemma py_int_unsigned:
  assumes "py_int v = Inr n" and "\<not> prefix ''-'' (strip v)"
  shows "0 \<le> n"
  using assms
  by (auto simp: py_int_def int_body_def split: list.splits if_splits)

lemma avail_search_digits:
  "avail_search raw = Some ds \<Longrightarrow> ds \<noteq> [] \<and> list_all is_digit ds"
proof (induction raw)
  case Nil
  then show ?case by simp
next
  case (Cons c cs)
  have "list_all is_digit (takeWhile is_digit cs)"
    by (auto simp: list_all_iff dest: set_takeWhileD)
  with Cons show ?case
    by (auto split: if_splits)
qed

lemma num_available_of_value:
  "num_available_of raw =
     Inr (case avail_search raw of None \<Rightarrow> 0 | Some ds \<Rightarrow> int (digits_val ds))"
  by (auto simp: num_available_of_def py_int_digits split: option.splits dest: avail_search_digits)

lemma RATING_MAP_range: "RATING_MAP c = Some r \<Longrightarrow> r \<in> {1, 2, 3, 4, 5}"
  by (auto simp: RATING_MAP_def split: if_splits)

lemma extract_rating_range: "extract_rating soup \<in> {0, 1, 2, 3, 4, 5}"
  using RATING_MAP_range
  by (fastforce simp: extract_rating_def split: option.splits list.splits)

lemma find_first_None:
  "find_first P ns = None \<longleftrightarrow> (\<forall>x \<in> fst ` set (descendants ns). \<not> P x)"
proof -
  have "find_first P ns = None \<longleftrightarrow> filter (\<lambda>(x, sibs). P x) (descendants ns) = []"
    by (simp add: find_first_def find_with_siblings_def split: list.splits)
  also have "\<dots> \<longleftrightarrow> (\<forall>x \<in> fst ` set (descendants ns). \<not> P x)"
    by (auto simp: filter_empty_conv)
  finally show ?thesis .
qed

section \<open>Where the defaults do apply\<close>

text \<open>An article whose heading has no anchor is passed over, and the loop goes on.\<close>

lemma articles_loop_skips_without_anchor:
  assumes "find_first (named ''h3'') (contents article) = Some h3"
    and "find_first (named ''a'') (contents h3) = None"
  shows "articles_loop (article # articles) book_urls = articles_loop articles book_urls"
  using assms by simp

lemma collect_book_urls_without_anchor:
  "collect_book_urls (\<lambda>url. Response True listing_without_anchor) 1
     = Inr [CATALOGUE_URL @ ''a-light_1000/index.html'']"
  by code_simp

text \<open>A page with no product block has the empty title, and no exception.\<close>

lemma extract_title_default:
  "\<forall>x \<in> fst ` set (descendants soup). \<not> named_class ''div'' ''product_main'' x
     \<Longrightarrow> extract_title soup = Inr []"
proof -
  assume "\<forall>x \<in> fst ` set (descendants soup). \<not> named_class ''div'' ''product_main'' x"
  then have "find_first (named_class ''div'' ''product_main'') soup = None"
    by (simp add: find_first_None)
  then show ?thesis
    by (simp add: extract_title_def)
qed

text \<open>
  A price text made of a currency sign, digits, a dot and digits gives the number the
  digits denote; a text with neither a digit nor a dot gives 0.
\<close>

lemma takeWhile_digit_or_dot_all:
  "list_all digit_or_dot xs \<Longrightarrow> takeWhile digit_or_dot xs = xs"
  by (induction xs) simp_all

lemma takeWhile_not_dot_digits:
  "list_all is_digit ds \<Longrightarrow> takeWhile (\<lambda>c. c \<noteq> CHR ''.'') (ds @ CHR ''.'' # fs) = ds"
  "list_all is_digit ds \<Longrightarrow> dropWhile (\<lambda>c. c \<noteq> CHR ''.'') (ds @ CHR ''.'' # fs) = CHR ''.'' # fs"
  by (induction ds) (simp_all add: is_digit_not_sign)

lemma py_float_decimal:
  assumes "list_all is_digit ds1" and "list_all is_digit ds2" and "ds1 @ ds2 \<noteq> []"
  shows "py_float (ds1 @ CHR ''.'' # ds2)
           = Inr (of_nat (digits_val ds1) + of_nat (digits_val ds2) / 10 ^ length ds2)"
  using assms by (simp add: py_float_def takeWhile_not_dot_digits)

lemma parse_price_currency_form:
  assumes "\<not> digit_or_dot c" and "list_all is_digit ds1" and "list_all is_digit ds2"
    and "ds1 @ ds2 \<noteq> []"
  shows "parse_price (c # ds1 @ CHR ''.'' # ds2)
           = Inr (of_nat (digits_val ds1) + of_nat (digits_val ds2) / 10 ^ length ds2)"
proof -
  let ?run = "ds1 @ CHR ''.'' # ds2"
  have all: "list_all digit_or_dot ?run"
    using assms(2,3) by (auto simp: list_all_iff digit_or_dot_def)
  then have "digit_or_dot (hd ?run)"
    by (cases ds1) simp_all
  then have "dropWhile (\<lambda>c. \<not> digit_or_dot c) ?run = ?run"
    by (cases ?run) simp_all
  then have "price_search (c # ?run) = Some ?run"
    using assms(1) all
    by (cases ?run) (simp_all add: price_search_def takeWhile_digit_or_dot_all del: takeWhile.simps)
  then show ?thesis
    using py_float_decimal [OF assms(2,3,4)] by (simp add: parse_price_def)
qed

lemma parse_price_no_digit_no_dot:
  "list_all (\<lambda>c. \<not> digit_or_dot c) raw \<Longrightarrow> parse_price raw = Inr 0"
proof -
  assume "list_all (\<lambda>c. \<not> digit_or_dot c) raw"
  then have none: "dropWhile (\<lambda>c. \<not> digit_or_dot c) raw = []"
    by (simp add: list_all_iff)
  show ?thesis
    unfolding parse_price_def price_search_def none by simp
qed

lemma parse_price_pound_example:
  "parse_price [CHR 0xA3, CHR ''5'', CHR ''1'', CHR ''.'', CHR ''7'', CHR ''7''] = Inr (5177 / 100)"
  by code_simp

section \<open>What reaches \<^verbatim>\<open>float\<close>, and further steps without a guard\<close>

text \<open>What \<^verbatim>\<open>float\<close> is given is never empty and has only digits and dots.\<close>

lemma price_search_run:
  "price_search raw = Some m \<Longrightarrow> m \<noteq> [] \<and> list_all digit_or_dot m"
proof -
  assume m: "price_search raw = Some m"
  then obtain c cs where rest: "dropWhile (\<lambda>c. \<not> digit_or_dot c) raw = c # cs"
    and run: "m = takeWhile digit_or_dot (c # cs)"
    by (auto simp: price_search_def split: list.splits)
  from rest have "digit_or_dot c"
    using hd_dropWhile [of "\<lambda>c. \<not> digit_or_dot c" raw] by simp
  then have "m \<noteq> []"
    by (simp add: run)
  moreover have "list_all digit_or_dot m"
    unfolding run by (auto simp: list_all_iff dest: set_takeWhileD)
  ultimately show ?thesis
    by simp
qed

text \<open>
  Other steps of the parser without a guard: a table row without a \<^verbatim>\<open>td\<close>, a review
  count that is not a number, a price with two dots.
\<close>

lemma parse_book_page_raises_on_row_without_td:
  "parse_book_page
     (Response True
        [Tag ''table'' [''table-striped''] Map.empty
           [Tag ''tr'' [] Map.empty [Tag ''th'' [] Map.empty [NavigableString ''UPC'']]]])
     ''u'' = Inl AttributeError"
  by code_simp

lemma parse_book_page_raises_on_text_reviews:
  "parse_book_page
     (Response True
        [Tag ''table'' [''table-striped''] Map.empty
           [Tag ''tr'' [] Map.empty
              [Tag ''th'' [] Map.empty [NavigableString ''Number of reviews''],
               Tag ''td'' [] Map.empty [NavigableString ''none'']]]])
     ''u'' = Inl ValueError"
  by code_simp

lemma parse_price_raises_on_two_dots:
  "parse_price ''1.2.3'' = Inl ValueError"
  by code_simp

section \<open>The rating\<close>

text \<open>
  C5, as the code has it. In every record the rating is one of 0 to 5; it is 0 when the
  page has no rating marker (no \<^verbatim>\<open>p\<close> element with the class token
  \<^verbatim>\<open>star-rating\<close>); and it is 4 when \<^verbatim>\<open>Four\<close> is the first class token of the rating
  marker other than \<^verbatim>\<open>star-rating\<close>, as it is when the tokens of the marker are just
  \<^verbatim>\<open>star-rating\<close> and \<^verbatim>\<open>Four\<close>. The code reads only that first token.
\<close>

theorem rating_extracted:
  assumes "parse_book_page (Response True soup) url = Inr (Some b)"
  shows "rating b \<in> {0, 1, 2, 3, 4, 5}
     \<and> ((\<forall>x \<in> fst ` set (descendants soup). \<not> named_class ''p'' ''star-rating'' x)
          \<longrightarrow> rating b = 0)
     \<and> (\<forall>star_tag rating_class.
            find_first (named_class ''p'' ''star-rating'') soup = Some star_tag
            \<and> filter (\<lambda>c. c \<noteq> ''star-rating'') (tag_classes star_tag) = ''Four'' # rating_class
          \<longrightarrow> rating b = 4)
     \<and> (\<forall>star_tag. find_first (named_class ''p'' ''star-rating'') soup = Some star_tag
            \<and> set (tag_classes star_tag) = {''star-rating'', ''Four''}
          \<longrightarrow> rating b = 4)"
proof -
  from assms have "parse_soup soup url = Inr b"
    by (simp add: parse_book_page_Some)
  then have r: "rating b = extract_rating soup"
    by (rule parse_soup_fields)
  have range: "rating b \<in> {0, 1, 2, 3, 4, 5}"
    unfolding r by (rule extract_rating_range)
  have absent: "rating b = 0"
    if "\<forall>x \<in> fst ` set (descendants soup). \<not> named_class ''p'' ''star-rating'' x"
  proof -
    from that have "find_first (named_class ''p'' ''star-rating'') soup = None"
      by (simp add: find_first_None)
    then show ?thesis
      by (simp add: r extract_rating_def)
  qed
  have first: "rating b = 4"
    if found: "find_first (named_class ''p'' ''star-rating'') soup = Some star_tag"
      and rest: "filter (\<lambda>c. c \<noteq> ''star-rating'') (tag_classes star_tag)
                   = ''Four'' # rating_class"
    for star_tag rating_class
    using found rest by (simp add: r extract_rating_def RATING_MAP_def)
  have four: "rating b = 4"
    if found: "find_first (named_class ''p'' ''star-rating'') soup = Some star_tag"
      and cls: "set (tag_classes star_tag) = {''star-rating'', ''Four''}"
    for star_tag
  proof -
    let ?rest = "filter (\<lambda>c. c \<noteq> ''star-rating'') (tag_classes star_tag)"
    have "set ?rest = {''Four''}"
      using cls by auto
    then obtain c cs where rest: "?rest = c # cs" and c: "c \<in> {''Four''}"
      by (cases ?rest) auto
    from c have "c = ''Four''"
      by simp
    with rest have "?rest = ''Four'' # cs"
      by (simp only:)
    with found show ?thesis
      by (rule first)
  qed
  have c2: "(\<forall>x \<in> fst ` set (descendants soup). \<not> named_class ''p'' ''star-rating'' x)
          \<longrightarrow> rating b = 0"
    using absent by (intro impI)
  have c3: "\<forall>star_tag rating_class.
            find_first (named_class ''p'' ''star-rating'') soup = Some star_tag
            \<and> filter (\<lambda>c. c \<noteq> ''star-rating'') (tag_classes star_tag) = ''Four'' # rating_class
          \<longrightarrow> rating b = 4"
    using first by (intro allI impI) (elim conjE)
  have c4: "\<forall>star_tag. find_first (named_class ''p'' ''star-rating'') soup = Some star_tag
            \<and> set (tag_classes star_tag) = {''star-rating'', ''Four''}
          \<longrightarrow> rating b = 4"
    using four by (intro allI impI) (elim conjE)
  from range c2 c3 c4 show ?thesis
    by (intro conjI)
qed

theorem rating_extracted_witness:
  "parse_book_page (Response True sample_page) ''u'' = Inr (Some (sample_book ''u''))
   \<and> find_first (named_class ''p'' ''star-rating'') sample_page
       = Some (Tag ''p'' [''star-rating'', ''Four''] Map.empty [])
   \<and> filter (\<lambda>c. c \<noteq> ''star-rating'') [''star-rating'', ''Four''] = ''Four'' # []
   \<and> rating (sample_book ''u'') = 4
   \<and> parse_book_page (Response True []) ''u'' = Inr (Some (default_book ''u''))
   \<and> descendants [] = []
   \<and> rating (default_book ''u'') = 0"
proof -
  have h: "parse_book_page (Response True sample_page) ''u'' = Inr (Some (sample_book ''u''))"
    by (rule parse_sample_page)
  have f: "find_first (named_class ''p'' ''star-rating'') sample_page
             = Some (Tag ''p'' [''star-rating'', ''Four''] Map.empty [])"
    by (simp add: find_first_def find_with_siblings_def named_class_def sample_page_def)
  have e: "parse_book_page (Response True []) ''u'' = Inr (Some (default_book ''u''))"
    by (rule parse_empty_page)
  have "rating (sample_book ''u'') = 4"
    using rating_extracted [OF h] f by simp
  moreover have "rating (default_book ''u'') = 0"
    using rating_extracted [OF e] by simp
  ultimately show ?thesis
    using h f e by simp
qed

text \<open>
  The claim as the spec has it fails: the marker of this page carries \<^verbatim>\<open>Four\<close>
  alongside \<^verbatim>\<open>star-rating\<close>, but after the token \<^verbatim>\<open>big\<close>, which is not a rating
  word, and the rating is 0.
\<close>

theorem rating_extra_token_counterexample:
  "map_option tag_classes (find_first (named_class ''p'' ''star-rating'') extra_token_page)
     = Some [''star-rating'', ''big'', ''Four'']
   \<and> parse_book_page (Response True extra_token_page) ''u'' = Inr (Some (default_book ''u''))
   \<and> rating (default_book ''u'') \<noteq> 4"
  by code_simp

section \<open>The counts\<close>

text \<open>
  C9, as the code has it. In every record \<open>num_available\<close> is at least 0, whatever the
  page holds. \<open>num_reviews\<close> is 0 when the table has no row \<^verbatim>\<open>Number of reviews\<close>, and
  at least 0 when the text of that row, stripped, does not start with a minus sign.
\<close>

theorem counts_nonnegative:
  assumes "parse_book_page (Response True soup) url = Inr (Some b)"
  shows "0 \<le> num_available b
     \<and> (info_value soup ''Number of reviews'' = None \<longrightarrow> num_reviews b = 0)
     \<and> (\<forall>v. info_value soup ''Number of reviews'' = Some v \<and> \<not> prefix ''-'' (strip v)
          \<longrightarrow> 0 \<le> num_reviews b)"
proof -
  from assms have "parse_soup soup url = Inr b"
    by (simp add: parse_book_page_Some)
  then obtain info where info: "extract_info soup = Inr info"
    and avail: "num_available_of (info_get info ''Availability'' []) = Inr (num_available b)"
    and rev: "num_reviews_of info = Inr (num_reviews b)"
    by (rule parse_soup_fields)
  have "0 \<le> num_available b"
    using avail by (simp add: num_available_of_value split: option.splits)
  moreover have "num_reviews b = 0" if "info_value soup ''Number of reviews'' = None"
    using that rev info by (simp add: info_value_def num_reviews_of_def)
  moreover have "0 \<le> num_reviews b"
    if "info_value soup ''Number of reviews'' = Some v" and "\<not> prefix ''-'' (strip v)" for v
  proof -
    from that(1) info rev have "py_int v = Inr (num_reviews b)"
      by (simp add: info_value_def num_reviews_of_def)
    then show ?thesis
      using that(2) by (rule py_int_unsigned)
  qed
  ultimately show ?thesis
    by blast
qed

theorem counts_nonnegative_witness:
  "parse_book_page (Response True sample_page) ''u'' = Inr (Some (sample_book ''u''))
   \<and> info_value sample_page ''Number of reviews'' = Some ''0''
   \<and> \<not> prefix ''-'' (strip ''0'')
   \<and> 0 \<le> num_available (sample_book ''u'')
   \<and> 0 \<le> num_reviews (sample_book ''u'')"
proof -
  have h: "parse_book_page (Response True sample_page) ''u'' = Inr (Some (sample_book ''u''))"
    by (rule parse_sample_page)
  have v: "info_value sample_page ''Number of reviews'' = Some ''0''"
    by code_simp
  have s: "\<not> prefix ''-'' (strip ''0'')"
    by code_simp
  show ?thesis
    using h v s counts_nonnegative [OF h] by simp
qed

text \<open>
  The claim as the spec has it fails: a page whose table says \<^verbatim>\<open>-3\<close> reviews gives
  a record with \<open>num_reviews = -3\<close>.
\<close>

theorem num_reviews_negative_counterexample:
  "parse_book_page (Response True negative_reviews_page) ''u''
     = Inr (Some ((default_book ''u'')\<lparr>num_reviews := - 3\<rparr>))
   \<and> \<not> 0 \<le> num_reviews ((default_book ''u'')\<lparr>num_reviews := - 3\<rparr>)"
  by code_simp

section \<open>Exceptions that leave the parser and the collector\<close>

text \<open>
  C1. The claim is that a missing inner element never makes \<^verbatim>\<open>parse_book_page\<close>
  raise. On a page whose product block has no \<^verbatim>\<open>h1\<close>, the code raises
  \<^verbatim>\<open>AttributeError\<close>.
\<close>

theorem parse_book_page_raises_without_heading:
  "parse_book_page (Response True headless_page) ''u'' = Inl AttributeError"
  by code_simp

text \<open>
  C3. The claim is that a price text without digits gives 0.0. On the text \<^verbatim>\<open>.\<close>,
  which has no digit, the code raises \<^verbatim>\<open>ValueError\<close>.
\<close>

theorem parse_price_raises_on_dot:
  "parse_price ''.'' = Inl ValueError"
  by code_simp

text \<open>
  C7. The claim is that an article without the link structure is skipped. On a page
  whose first article has no \<^verbatim>\<open>h3\<close>, the code raises \<^verbatim>\<open>AttributeError\<close> and the
  second article is not processed.
\<close>

theorem collect_book_urls_raises_without_heading:
  "collect_book_urls (\<lambda>url. Response True listing_without_heading) 1 = Inl AttributeError"
  by code_simp

section \<open>Facts about \<open>replace\<close> and \<open>contains\<close>\<close>

lemma contains_iff: "contains sub s \<longleftrightarrow> (\<exists>p t. s = p @ sub @ t)"
proof -
  have "contains sub s \<longleftrightarrow> sublist sub s"
    by (induction s) (simp_all add: sublist_Cons_right)
  then show ?thesis
    by (simp add: sublist_def)
qed

lemma replace_no_occurrence:
  "old \<noteq> [] \<Longrightarrow> \<not> contains old s \<Longrightarrow> replace s old new = s"
proof (induction s)
  case Nil
  then show ?case
    by (simp add: replace.simps)
next
  case (Cons c cs)
  then have "replace cs old new = cs" and "\<not> prefix old (c # cs)"
    by simp_all
  with Cons.prems(1) show ?case
    by (subst replace.simps) simp
qed

lemma replace_past_char:
  "old \<noteq> [] \<Longrightarrow> \<not> prefix old (c # cs)
     \<Longrightarrow> replace (c # cs) old new = c # replace cs old new"
  by (subst replace.simps) simp

lemma replace_at_front:
  "old \<noteq> [] \<Longrightarrow> replace (old @ s) old new = new @ replace s old new"
  by (subst replace.simps) simp

lemma replace_after_clean_prefix:
  "\<not> contains ''../'' a \<Longrightarrow> replace (a @ ''../'' @ b) ''../'' [] = a @ replace b ''../'' []"
proof (induction a)
  case Nil
  show ?case
    using replace_at_front [of "''../''" b "[]"] by simp
next
  case (Cons c a)
  then have ih: "replace (a @ ''../'' @ b) ''../'' [] = a @ replace b ''../'' []"
    and here: "\<not> prefix ''../'' (c # a)"
    by simp_all
  have "\<not> prefix ''../'' (c # a @ ''../'' @ b)"
  proof (cases a)
    case Nil
    then show ?thesis by simp
  next
    case a: (Cons d a')
    show ?thesis
    proof (cases a')
      case Nil
      with a show ?thesis by simp
    next
      case (Cons e a'')
      with a here show ?thesis by simp
    qed
  qed
  then have "replace (c # a @ ''../'' @ b) ''../'' [] = c # replace (a @ ''../'' @ b) ''../'' []"
    by (intro replace_past_char) simp_all
  with ih show ?case
    by simp
qed

lemma replace_leading_updirs:
  "\<not> contains ''../'' (strip_leading_updirs s)
     \<Longrightarrow> replace s ''../'' [] = strip_leading_updirs s"
proof (induction s rule: strip_leading_updirs.induct)
  case (1 s)
  show ?case
  proof (cases "prefix ''../'' s")
    case True
    then have s: "s = ''../'' @ drop 3 s"
      by (auto simp: prefix_def)
    have unfold: "strip_leading_updirs s = strip_leading_updirs (drop 3 s)"
      using True by (subst strip_leading_updirs.simps) simp
    with "1.prems" have "replace (drop 3 s) ''../'' [] = strip_leading_updirs (drop 3 s)"
      using "1.IH" [OF True] by simp
    moreover have "replace s ''../'' [] = replace (drop 3 s) ''../'' []"
      using replace_at_front [of "''../''" "drop 3 s" "[]"] s by simp
    ultimately show ?thesis
      using unfold by simp
  next
    case False
    then have "strip_leading_updirs s = s"
      by (subst strip_leading_updirs.simps) simp
    with "1.prems" show ?thesis
      by (simp add: replace_no_occurrence)
  qed
qed

section \<open>Resolving a link\<close>

text \<open>
  C8, as the code has it. The reference is the catalogue root followed by the link
  with every \<^verbatim>\<open>../\<close> removed, wherever it stands: one that follows a prefix free of
  \<^verbatim>\<open>../\<close> is removed as well. When no \<^verbatim>\<open>../\<close> is left once the leading ones are
  stripped, the reference is the catalogue root followed by the link without its
  leading \<^verbatim>\<open>../\<close> segments.
\<close>

theorem full_url_removes_every_updir:
  "(\<not> contains ''../'' (strip_leading_updirs href)
      \<longrightarrow> full_url href = CATALOGUE_URL @ strip_leading_updirs href)
   \<and> (\<not> contains ''../'' a
      \<longrightarrow> full_url (a @ ''../'' @ b) = CATALOGUE_URL @ a @ replace b ''../'' [])"
  unfolding full_url_def
  using replace_leading_updirs [of href] replace_after_clean_prefix [of a b]
  by simp

theorem full_url_removes_every_updir_witness:
  "\<not> contains ''../'' (strip_leading_updirs ''../../a-light_1000/index.html'')
   \<and> full_url ''../../a-light_1000/index.html''
        = CATALOGUE_URL @ ''a-light_1000/index.html''
   \<and> \<not> contains ''../'' ''a/''
   \<and> full_url (''a/'' @ ''../'' @ ''b.html'') = CATALOGUE_URL @ ''a/b.html''"
proof -
  have h1: "\<not> contains ''../'' (strip_leading_updirs ''../../a-light_1000/index.html'')"
    by code_simp
  have s: "strip_leading_updirs ''../../a-light_1000/index.html'' = ''a-light_1000/index.html''"
    by code_simp
  have h2: "\<not> contains ''../'' ''a/''"
    by code_simp
  have r: "replace ''b.html'' ''../'' [] = ''b.html''"
    by code_simp
  show ?thesis
    using h1 h2 s r
      full_url_removes_every_updir [of "''../../a-light_1000/index.html''" "''a/''" "''b.html''"]
    by simp
qed

text \<open>
  The claim as the spec has it fails: in \<^verbatim>\<open>a/../b.html\<close> no \<^verbatim>\<open>../\<close> is leading, yet
  the code removes the one inside.
\<close>

theorem full_url_inner_updir_counterexample:
  "full_url ''a/../b.html'' \<noteq> CATALOGUE_URL @ strip_leading_updirs ''a/../b.html''"
  by code_simp

section \<open>The availability text\<close>

lemma takeWhile_digits_before_space:
  "list_all is_digit ds \<Longrightarrow> takeWhile is_digit (ds @ '' available)'' @ s) = ds"
  "list_all is_digit ds \<Longrightarrow> dropWhile is_digit (ds @ '' available)'' @ s) = '' available)'' @ s"
  by (induction ds) (simp_all add: is_digit_def)

lemma avail_search_at_front:
  assumes "ds \<noteq> []" and "list_all is_digit ds"
  shows "avail_search (''('' @ ds @ '' available)'' @ s) = Some ds"
  using assms takeWhile_digits_before_space [OF assms(2), of s] by simp

lemma avail_search_sound:
  "avail_search raw = Some ds \<Longrightarrow> \<exists>p s. count_pattern_at raw p ds s"
proof (induction raw)
  case Nil
  then show ?case by simp
next
  case (Cons c cs)
  show ?case
  proof (cases "c = CHR ''('' \<and> takeWhile is_digit cs \<noteq> []
                  \<and> prefix '' available)'' (dropWhile is_digit cs)")
    case True
    with Cons.prems have ds: "ds = takeWhile is_digit cs"
      by simp
    from True obtain s where "dropWhile is_digit cs = '' available)'' @ s"
      by (auto simp: prefix_def)
    then have "cs = ds @ '' available)'' @ s"
      using takeWhile_dropWhile_id [of is_digit cs] ds by simp
    moreover have "list_all is_digit ds"
      unfolding ds by (auto simp: list_all_iff dest: set_takeWhileD)
    ultimately have "count_pattern_at (c # cs) [] ds s"
      using True ds by (simp add: count_pattern_at_def)
    then show ?thesis by blast
  next
    case False
    with Cons.prems have "avail_search cs = Some ds"
      by (simp split: if_splits)
    then obtain p s where "count_pattern_at cs p ds s"
      using Cons.IH by blast
    then have "count_pattern_at (c # cs) (c # p) ds s"
      by (simp add: count_pattern_at_def)
    then show ?thesis by blast
  qed
qed

lemma avail_search_leftmost:
  assumes "count_pattern_at raw p ds s"
    and "\<And>p' ds' s'. count_pattern_at raw p' ds' s' \<Longrightarrow> length p \<le> length p'"
  shows "avail_search raw = Some ds"
  using assms
proof (induction p arbitrary: raw)
  case Nil
  then show ?case
    using avail_search_at_front [of ds s] by (simp add: count_pattern_at_def)
next
  case (Cons c p)
  from Cons.prems(1) obtain cs where raw: "raw = c # cs" and cs: "count_pattern_at cs p ds s"
    by (auto simp: count_pattern_at_def)
  have later: "length p \<le> length p'" if "count_pattern_at cs p' ds' s'" for p' ds' s'
  proof -
    from that have "count_pattern_at raw (c # p') ds' s'"
      by (simp add: raw count_pattern_at_def)
    from Cons.prems(2) [OF this] show ?thesis by simp
  qed
  have "avail_search raw = avail_search cs"
  proof (rule ccontr)
    assume "avail_search raw \<noteq> avail_search cs"
    then have "avail_search raw = Some (takeWhile is_digit cs)"
      by (simp add: raw split: if_splits)
    then have m: "c = CHR ''(''" "takeWhile is_digit cs \<noteq> []"
      "prefix '' available)'' (dropWhile is_digit cs)"
      using \<open>avail_search raw \<noteq> avail_search cs\<close> by (auto simp: raw split: if_splits)
    from m(3) obtain s' where "dropWhile is_digit cs = '' available)'' @ s'"
      by (auto simp: prefix_def)
    then have "cs = takeWhile is_digit cs @ '' available)'' @ s'"
      using takeWhile_dropWhile_id [of is_digit cs] by simp
    moreover have "list_all is_digit (takeWhile is_digit cs)"
      by (auto simp: list_all_iff dest: set_takeWhileD)
    ultimately have "count_pattern_at raw [] (takeWhile is_digit cs) s'"
      using m(1,2) by (simp add: raw count_pattern_at_def)
    from Cons.prems(2) [OF this] show False by simp
  qed
  also have "avail_search cs = Some ds"
    using cs later by (rule Cons.IH)
  finally show ?case .
qed

lemma avail_search_None:
  "avail_search raw = None \<longleftrightarrow> (\<forall>p ds s. \<not> count_pattern_at raw p ds s)"
proof
  assume none: "avail_search raw = None"
  show "\<forall>p ds s. \<not> count_pattern_at raw p ds s"
  proof (intro allI notI)
    fix p ds s
    assume "count_pattern_at raw p ds s"
    then have "\<exists>ds'. avail_search raw = Some ds'"
    proof (induction p arbitrary: raw)
      case Nil
      then show ?case
        using avail_search_at_front [of ds s] by (simp add: count_pattern_at_def)
    next
      case (Cons c p)
      then obtain cs where raw: "raw = c # cs" and "count_pattern_at cs p ds s"
        by (auto simp: count_pattern_at_def)
      with Cons.IH obtain ds' where "avail_search cs = Some ds'"
        by blast
      then show ?case
        by (simp add: raw)
    qed
    with none show False by simp
  qed
next
  assume "\<forall>p ds s. \<not> count_pattern_at raw p ds s"
  then show "avail_search raw = None"
    using avail_search_sound [of raw] by (cases "avail_search raw") auto
qed

text \<open>
  C6. For a record built from a page whose table gives the availability text \<open>raw\<close>
  (the empty text when the table has no such row): \<open>availability\<close> is \<^verbatim>\<open>In stock\<close>
  exactly when \<open>raw\<close> contains that text, and \<^verbatim>\<open>Out of stock\<close> otherwise;
  \<open>num_available\<close> is the number in the leftmost \<^verbatim>\<open>(<digits> available)\<close> of \<open>raw\<close>
  and 0 when \<open>raw\<close> has none. So \<^verbatim>\<open>In stock (22 available)\<close> gives \<^verbatim>\<open>In stock\<close>
  and 22, and \<^verbatim>\<open>Out of stock\<close> gives \<^verbatim>\<open>Out of stock\<close> and 0.
\<close>

theorem availability_derived:
  assumes "parse_book_page (Response True soup) url = Inr (Some b)"
    and "raw = (case info_value soup ''Availability'' of None \<Rightarrow> [] | Some v \<Rightarrow> v)"
  shows "(availability b = ''In stock'' \<longleftrightarrow> (\<exists>p s. raw = p @ ''In stock'' @ s))
     \<and> (availability b \<noteq> ''In stock'' \<longrightarrow> availability b = ''Out of stock'')
     \<and> ((\<forall>p ds s. \<not> count_pattern_at raw p ds s) \<longrightarrow> num_available b = 0)
     \<and> (\<forall>p ds s. count_pattern_at raw p ds s
            \<and> (\<forall>p' ds' s'. count_pattern_at raw p' ds' s' \<longrightarrow> length p \<le> length p')
          \<longrightarrow> num_available b = int (digits_val ds))
     \<and> (raw = ''In stock (22 available)''
          \<longrightarrow> availability b = ''In stock'' \<and> num_available b = 22)
     \<and> (raw = ''Out of stock''
          \<longrightarrow> availability b = ''Out of stock'' \<and> num_available b = 0)"
proof -
  from assms(1) have "parse_soup soup url = Inr b"
    by (simp add: parse_book_page_Some)
  then obtain info where info: "extract_info soup = Inr info"
    and a: "availability b = availability_of (info_get info ''Availability'' [])"
    and n: "num_available_of (info_get info ''Availability'' []) = Inr (num_available b)"
    by (rule parse_soup_fields)
  have raw: "info_get info ''Availability'' [] = raw"
    using info by (simp add: assms(2) info_get_def info_value_def)
  have avail: "availability b = availability_of raw"
    using a raw by simp
  have num: "num_available b = (case avail_search raw of None \<Rightarrow> 0 | Some ds \<Rightarrow> int (digits_val ds))"
    using n raw by (simp add: num_available_of_value)
  have 1: "availability b = ''In stock'' \<longleftrightarrow> (\<exists>p s. raw = p @ ''In stock'' @ s)"
    unfolding avail availability_of_def contains_iff [symmetric] by simp
  have 2: "availability b \<noteq> ''In stock'' \<longrightarrow> availability b = ''Out of stock''"
    unfolding avail availability_of_def by simp
  have 3: "(\<forall>p ds s. \<not> count_pattern_at raw p ds s) \<longrightarrow> num_available b = 0"
    unfolding num avail_search_None [symmetric] by simp
  have 4: "num_available b = int (digits_val ds)"
    if "count_pattern_at raw p ds s"
      and "\<forall>p' ds' s'. count_pattern_at raw p' ds' s' \<longrightarrow> length p \<le> length p'"
    for p ds s
  proof -
    have "avail_search raw = Some ds"
      using that by (intro avail_search_leftmost [of raw p ds s]) blast+
    then show ?thesis
      by (simp add: num)
  qed
  have 5: "availability b = ''In stock'' \<and> num_available b = 22"
    if "raw = ''In stock (22 available)''"
  proof -
    have "availability_of ''In stock (22 available)'' = ''In stock''"
      by code_simp
    moreover have "num_available_of ''In stock (22 available)'' = Inr 22"
      by code_simp
    ultimately show ?thesis
      using that avail n raw by simp
  qed
  have 6: "availability b = ''Out of stock'' \<and> num_available b = 0"
    if "raw = ''Out of stock''"
  proof -
    have "availability_of ''Out of stock'' = ''Out of stock''"
      by code_simp
    moreover have "num_available_of ''Out of stock'' = Inr 0"
      by code_simp
    ultimately show ?thesis
      using that avail n raw by simp
  qed
  from 1 2 3 4 5 6 show ?thesis
    by blast
qed

theorem availability_derived_witness:
  "parse_book_page (Response True sample_page) ''u'' = Inr (Some (sample_book ''u''))
   \<and> ''In stock (22 available)''
        = (case info_value sample_page ''Availability'' of None \<Rightarrow> [] | Some v \<Rightarrow> v)
   \<and> availability (sample_book ''u'') = ''In stock''
   \<and> num_available (sample_book ''u'') = 22"
proof -
  have h: "parse_book_page (Response True sample_page) ''u'' = Inr (Some (sample_book ''u''))"
    by (rule parse_sample_page)
  have r: "''In stock (22 available)''
             = (case info_value sample_page ''Availability'' of None \<Rightarrow> [] | Some v \<Rightarrow> v)"
    by code_simp
  show ?thesis
    using h r availability_derived [OF h r] by simp
qed

section \<open>A fetch that fails in the loop over the addresses\<close>

lemma books_loop_append:
  "books_loop calls (acc @ bs) = map_sum id (\<lambda>rs. acc @ rs) (books_loop calls bs)"
proof (induction calls arbitrary: bs)
  case Nil
  show ?case by simp
next
  case (Cons call calls)
  obtain url r where call: "call = (url, r)"
    by (cases call)
  show ?case
  proof (cases "parse_book_page r url")
    case (Inl e)
    then show ?thesis by (simp add: call)
  next
    case (Inr res)
    then show ?thesis
      using Cons.IH [of bs] Cons.IH [of "bs @ [the res]"]
      by (cases res) (simp_all add: call)
  qed
qed

lemma books_loop_from:
  "books_loop calls acc = map_sum id (\<lambda>rs. acc @ rs) (books_loop calls [])"
  using books_loop_append [of calls acc "[]"] by simp

lemma books_loop_fetched:
  assumes "get_page r \<noteq> None" and "books_loop ((url, r) # calls) [] = Inr recs"
  obtains b recs' where "parse_book_page r url = Inr (Some b)"
    and "books_loop calls [] = Inr recs'" and "recs = b # recs'"
proof -
  from assms(1) obtain soup where soup: "get_page r = Some soup"
    by auto
  show ?thesis
  proof (cases "parse_soup soup url")
    case (Inl e)
    with soup assms(2) show ?thesis
      by (simp add: parse_book_page_def)
  next
    case (Inr b)
    with soup have p: "parse_book_page r url = Inr (Some b)"
      by (simp add: parse_book_page_def)
    with assms(2) have "map_sum id (\<lambda>rs. [b] @ rs) (books_loop calls []) = Inr recs"
      using books_loop_from [of calls "[b]"] by simp
    then obtain recs' where "books_loop calls [] = Inr recs'" and "recs = b # recs'"
      by (cases "books_loop calls []") auto
    with p that show ?thesis
      by blast
  qed
qed

text \<open>
  C4. In a run where every fetch is a response with the \<^verbatim>\<open>ok\<close> flag set and that gives
  the records \<open>recs\<close>, let the fetch at position \<open>i\<close> fail at the transport level instead:
  the request raises \<^verbatim>\<open>RequestException\<close>, or the response comes without the
  \<^verbatim>\<open>ok\<close> flag, whatever its body. Then \<^verbatim>\<open>parse_book_page\<close> returns \<^verbatim>\<open>None\<close>
  for that address, and the loop returns \<open>recs\<close> without its record at position \<open>i\<close>: one
  record less, the others the same and in the same order.
\<close>

theorem failed_fetch_drops_one_record:
  assumes "i < length calls"
    and "\<forall>call \<in> set calls. \<exists>body. snd call = Response True body"
    and "books_loop calls [] = Inr recs"
    and "failed = RequestException \<or> (\<exists>body. failed = Response False body)"
  shows "parse_book_page failed (fst (calls ! i)) = Inr None
     \<and> length recs = length calls
     \<and> books_loop (calls[i := (fst (calls ! i), failed)]) []
         = Inr (take i recs @ drop (Suc i) recs)
     \<and> length (take i recs @ drop (Suc i) recs) = length recs - 1"
proof -
  have fetched: "\<forall>call \<in> set calls. get_page (snd call) \<noteq> None"
  proof
    fix call
    assume "call \<in> set calls"
    with assms(2) obtain body where "snd call = Response True body"
      by blast
    then show "get_page (snd call) \<noteq> None"
      by simp
  qed
  have not_fetched: "get_page failed = None"
    using assms(4) by auto
  have absent: "parse_book_page failed u = Inr None" for u
    using not_fetched by (rule parse_book_page_absent)
  have run: "length recs = length calls
     \<and> books_loop (calls[i := (fst (calls ! i), failed)]) []
         = Inr (take i recs @ drop (Suc i) recs)"
    using assms(1) fetched assms(3)
  proof (induction calls arbitrary: i recs)
    case Nil
    then show ?case by simp
  next
    case (Cons call calls)
    obtain url r where call: "call = (url, r)"
      by (cases call)
    from Cons.prems(2) have ok: "get_page r \<noteq> None"
      and oks: "\<forall>call \<in> set calls. get_page (snd call) \<noteq> None"
      by (simp_all add: call)
    from ok Cons.prems(3) obtain b recs' where b: "parse_book_page r url = Inr (Some b)"
      and rest: "books_loop calls [] = Inr recs'" and recs: "recs = b # recs'"
      unfolding call by (rule books_loop_fetched)
    show ?case
    proof (cases i)
      case 0
      have "length recs' = length calls"
      proof (cases calls)
        case Nil
        with rest show ?thesis by simp
      next
        case (Cons c cs)
        then have "0 < length calls" by simp
        from Cons.IH [OF this oks rest] show ?thesis by simp
      qed
      then show ?thesis
        using 0 rest recs absent by (simp add: call)
    next
      case (Suc j)
      with Cons.prems(1) have j: "j < length calls"
        by simp
      from Cons.IH [OF j oks rest]
      have len: "length recs' = length calls"
        and upd: "books_loop (calls[j := (fst (calls ! j), failed)]) []
                    = Inr (take j recs' @ drop (Suc j) recs')"
        by simp_all
      have "books_loop ((url, r) # calls[j := (fst (calls ! j), failed)]) []
              = Inr (b # take j recs' @ drop (Suc j) recs')"
        using b upd books_loop_from [of "calls[j := (fst (calls ! j), failed)]" "[b]"]
        by simp
      then show ?thesis
        using Suc len recs by (simp add: call)
    qed
  qed
  moreover have "length (take i recs @ drop (Suc i) recs) = length recs - 1"
    using assms(1) run by auto
  ultimately show ?thesis
    using absent by simp
qed

theorem failed_fetch_drops_one_record_witness:
  "(1::nat) < length [(''u'', Response True []), (''v'', Response True sample_page),
                      (''w'', Response True [])]
   \<and> books_loop [(''u'', Response True []), (''v'', Response True sample_page),
                  (''w'', Response True [])] []
        = Inr [default_book ''u'', sample_book ''v'', default_book ''w'']
   \<and> parse_book_page RequestException ''v'' = Inr None
   \<and> books_loop [(''u'', Response True []), (''v'', RequestException),
                  (''w'', Response True [])] []
        = Inr [default_book ''u'', default_book ''w'']
   \<and> parse_book_page (Response False sample_page) ''v'' = Inr None
   \<and> books_loop [(''u'', Response True []), (''v'', Response False sample_page),
                  (''w'', Response True [])] []
        = Inr [default_book ''u'', default_book ''w'']"
proof -
  let ?calls = "[(''u'', Response True []), (''v'', Response True sample_page),
                 (''w'', Response True [])]"
  have i: "(1::nat) < length ?calls"
    by simp
  have ok: "\<forall>call \<in> set ?calls. \<exists>body. snd call = Response True body"
    by simp
  have run: "books_loop ?calls [] = Inr [default_book ''u'', sample_book ''v'', default_book ''w'']"
    by (simp add: parse_sample_page parse_empty_page)
  have raised: "RequestException = RequestException
                  \<or> (\<exists>body. RequestException = Response False body)"
    by simp
  have refused: "Response False sample_page = RequestException
                  \<or> (\<exists>body. Response False sample_page = Response False body)"
    by simp
  show ?thesis
    using i run
      failed_fetch_drops_one_record [OF i ok run raised]
      failed_fetch_drops_one_record [OF i ok run refused]
    by simp
qed

end
